theory Spec2Isabelle
  imports Complex_Main
begin

section \<open>Numbers, colours and the drawing log\<close>

text \<open>
  The scripts compute with Python floats and ints.  Python ints are modelled by \<open>int\<close>.
  Floats are modelled by \<open>real\<close>: there is no NaN and no infinity, and the geometry of
  the drawing functions (end points, lengths, stroke widths, angles, the layout of the
  icon) is computed exactly.  The padded size of \<open>clean_and_resize\<close>, an integer read off
  a float quotient, is computed with every float operation rounded by \<open>fl\<close> below.  A
  colour is the 4-tuple (R, G, B, A) the scripts pass around.

  \<open>ImageDraw.Draw\<close> is Pillow's; its rasteriser is not part of the repository.  The
  canvas state a \<open>draw\<close> object carries is modelled as the list of the primitive calls made
  on it, oldest first: \<open>draw.line([start, end], fill, width)\<close>,
  \<open>draw.ellipse([x0, y0, x1, y1], fill)\<close> and \<open>draw.polygon(points, fill)\<close>.
\<close>

type_synonym point = "real \<times> real"
type_synonym rgba = "nat \<times> nat \<times> nat \<times> nat"

datatype draw_op =
    Line point point rgba int
  | Ellipse real real real real rgba
  | Polygon "point list" rgba

text \<open>The exceptions the modelled code can raise.\<close>

datatype py_error = ZeroDivisionError | ValueError

text \<open>\<open>draw.ellipse\<close> refuses an inverted box: Pillow raises \<open>ValueError\<close> ("x1 must be
  greater than or equal to x0", likewise for y) and draws nothing.  The result is the log
  after the call and the exception, if one was raised.\<close>

definition draw_ellipse ::
  "draw_op list \<Rightarrow> real \<times> real \<times> real \<times> real \<Rightarrow> rgba \<Rightarrow> draw_op list \<times> py_error option"
where
  "draw_ellipse draw box fill =
     (case box of (x0, y0, x1, y1) \<Rightarrow>
        if x1 < x0 \<or> y1 < y0 then (draw, Some ValueError)
        else (draw @ [Ellipse x0 y0 x1 y1 fill], None))"

text \<open>\<open>int(x)\<close> on a float truncates towards zero.\<close>

definition py_int :: "real \<Rightarrow> int" where
  "py_int x = (if 0 \<le> x then \<lfloor>x\<rfloor> else \<lceil>x\<rceil>)"

text \<open>\<open>math.radians\<close>.\<close>

definition radians :: "real \<Rightarrow> real" where
  "radians a = a * pi / 180"

text \<open>Rounding to the nearest binary64 number, ties to even: the significand has 53 bits;
  the exponent range is not bounded (no overflow to infinity, no subnormal numbers).\<close>

definition round_half_even :: "real \<Rightarrow> int" where
  "round_half_even m =
     (let f = \<lfloor>m\<rfloor> in
      if m - of_int f < 1 / 2 then f
      else if 1 / 2 < m - of_int f then f + 1
      else if even f then f else f + 1)"

definition fl :: "real \<Rightarrow> real" where
  "fl x =
     (if x = 0 then 0
      else let e = \<lfloor>log 2 \<bar>x\<bar>\<rfloor> - 52
           in of_int (round_half_even (x / 2 powr of_int e)) * 2 powr of_int e)"

section \<open>create_dock_logo.py: draw_branch\<close>

text \<open>
  The guard of \<open>draw_branch\<close> does not test the width, so a negative width reaches the cap:
  its box is then inverted and \<open>draw.ellipse\<close> raises after the line has been drawn.  The
  function returns the canvas log together with the exception, if any; an exception in a
  recursive call ends the caller too.
\<close>

function draw_branch ::
  "draw_op list \<Rightarrow> point \<Rightarrow> real \<Rightarrow> real \<Rightarrow> real \<Rightarrow> int \<Rightarrow> int \<Rightarrow> rgba \<Rightarrow>
   draw_op list \<times> py_error option"
where
  "draw_branch draw start angle len width depth max_depth color =
    (if depth > max_depth \<or> len < 2 then (draw, None)
     else
       let end_x = fst start + len * sin (radians angle);
           end_y = snd start - len * cos (radians angle);
           end_pt = (end_x, end_y);
           draw1 = draw @ [Line start end_pt color (max 1 (py_int width))];
           cap_radius = width / 2;
           capped = draw_ellipse draw1
                      (end_x - cap_radius, end_y - cap_radius,
                       end_x + cap_radius, end_y + cap_radius) color
       in if snd capped \<noteq> None then capped
          else
            let draw2 = fst capped;
                new_length = len * 0.65;
                new_width = width * 0.7;
                spread = 35 + of_int depth * 5;
                left = draw_branch draw2 end_pt (angle - spread) new_length new_width
                         (depth + 1) max_depth color
            in if snd left \<noteq> None then left
               else draw_branch (fst left) end_pt (angle + spread) new_length new_width
                      (depth + 1) max_depth color)"
  by pat_completeness auto
termination
  by (relation "measure (\<lambda>(draw, start, angle, len, width, depth, max_depth, color).
        nat (max_depth + 1 - depth))") auto

section \<open>create_dock_logo_v2.py: draw_organic_branch\<close>

record branch_params =
  spread :: real
  length_factor :: real
  width_factor :: real

text \<open>
  In \<open>draw_organic_branch\<close> the guard lets only widths of at least 1 through, so the cap
  box is never inverted and \<open>draw.ellipse\<close> cannot raise: the function returns the canvas
  log alone.
\<close>

text \<open>The default of \<open>branch_data.get(depth, {...})\<close>.\<close>

definition default_params :: branch_params where
  "default_params = \<lparr>spread = 40, length_factor = 0.6, width_factor = 0.7\<rparr>"

function draw_organic_branch ::
  "draw_op list \<Rightarrow> point \<Rightarrow> real \<Rightarrow> real \<Rightarrow> real \<Rightarrow> int \<Rightarrow> int \<Rightarrow> rgba \<Rightarrow>
   (int \<rightharpoonup> branch_params) \<Rightarrow> draw_op list"
where
  "draw_organic_branch draw start angle len width depth max_depth color branch_data =
    (if depth > max_depth \<or> len < 3 \<or> width < 1 then draw
     else
       let end_x = fst start + len * sin (radians angle);
           end_y = snd start - len * cos (radians angle);
           end_pt = (end_x, end_y);
           draw1 = draw @ [Line start end_pt color (max 1 (py_int width))];
           cap_r = width / 2.2;
           draw2 = draw1 @ [Ellipse (end_x - cap_r) (end_y - cap_r)
                                    (end_x + cap_r) (end_y + cap_r) color];
           params = (case branch_data depth of None \<Rightarrow> default_params | Some p \<Rightarrow> p);
           new_length = len * length_factor params;
           new_width = width * width_factor params;
           spread' = spread params;
           left_spread = spread' + of_int (depth * 3);
           right_spread = spread' + of_int (depth * 2);
           draw3 = draw_organic_branch draw2 end_pt (angle - left_spread) new_length new_width
                     (depth + 1) max_depth color branch_data
       in draw_organic_branch draw3 end_pt (angle + right_spread) new_length new_width
            (depth + 1) max_depth color branch_data)"
  by pat_completeness auto
termination
  by (relation "measure (\<lambda>(draw, start, angle, len, width, depth, max_depth, color, branch_data).
        nat (max_depth + 1 - depth))") auto


section \<open>The invocations that draw\<close>

text \<open>
  The arguments of one invocation of a branch function that passes the guard, in the
  order the recursion visits them.  \<open>branch_calls\<close> and \<open>organic_calls\<close> follow the
  recursion of \<open>draw_branch\<close> and \<open>draw_organic_branch\<close> line by line and list the
  invocations instead of drawing; \<open>branch_calls\<close> also returns the exception that ends
  the run, if there is one.  \<open>branch_segment\<close> and \<open>organic_segment\<close> are what one
  invocation leaves on the canvas: its line and its cap (for \<open>draw_branch\<close> the line
  alone when the cap call raises).  The lemmas \<open>draw_branch_calls\<close> and
  \<open>draw_organic_branch_calls\<close> below tie the lists to the drawing functions.
\<close>

record branch_call =
  c_start :: point
  c_angle :: real
  c_len :: real
  c_width :: real
  c_depth :: int

function branch_calls ::
  "point \<Rightarrow> real \<Rightarrow> real \<Rightarrow> real \<Rightarrow> int \<Rightarrow> int \<Rightarrow> branch_call list \<times> py_error option"
where
  "branch_calls start angle len width depth max_depth =
    (if depth > max_depth \<or> len < 2 then ([], None)
     else
       let end_x = fst start + len * sin (radians angle);
           end_y = snd start - len * cos (radians angle);
           end_pt = (end_x, end_y);
           this = \<lparr>c_start = start, c_angle = angle, c_len = len, c_width = width,
                   c_depth = depth\<rparr>;
           cap_radius = width / 2
       in if end_x + cap_radius < end_x - cap_radius \<or> end_y + cap_radius < end_y - cap_radius
          then ([this], Some ValueError)
          else
            let new_length = len * 0.65;
                new_width = width * 0.7;
                spread = 35 + of_int depth * 5;
                left = branch_calls end_pt (angle - spread) new_length new_width
                         (depth + 1) max_depth
            in if snd left \<noteq> None then (this # fst left, snd left)
               else
                 let right = branch_calls end_pt (angle + spread) new_length new_width
                               (depth + 1) max_depth
                 in (this # fst left @ fst right, snd right))"
  by pat_completeness auto
termination
  by (relation "measure (\<lambda>(start, angle, len, width, depth, max_depth).
        nat (max_depth + 1 - depth))") auto

definition branch_segment :: "rgba \<Rightarrow> branch_call \<Rightarrow> draw_op list" where
  "branch_segment color c =
     (let end_x = fst (c_start c) + c_len c * sin (radians (c_angle c));
          end_y = snd (c_start c) - c_len c * cos (radians (c_angle c));
          cap_radius = c_width c / 2
      in fst (draw_ellipse
                [Line (c_start c) (end_x, end_y) color (max 1 (py_int (c_width c)))]
                (end_x - cap_radius, end_y - cap_radius,
                 end_x + cap_radius, end_y + cap_radius) color))"

function organic_calls ::
  "point \<Rightarrow> real \<Rightarrow> real \<Rightarrow> real \<Rightarrow> int \<Rightarrow> int \<Rightarrow> (int \<rightharpoonup> branch_params) \<Rightarrow> branch_call list"
where
  "organic_calls start angle len width depth max_depth branch_data =
    (if depth > max_depth \<or> len < 3 \<or> width < 1 then []
     else
       let end_x = fst start + len * sin (radians angle);
           end_y = snd start - len * cos (radians angle);
           end_pt = (end_x, end_y);
           params = (case branch_data depth of None \<Rightarrow> default_params | Some p \<Rightarrow> p);
           new_length = len * length_factor params;
           new_width = width * width_factor params;
           spread' = spread params;
           left_spread = spread' + of_int (depth * 3);
           right_spread = spread' + of_int (depth * 2)
       in \<lparr>c_start = start, c_angle = angle, c_len = len, c_width = width, c_depth = depth\<rparr>
          # organic_calls end_pt (angle - left_spread) new_length new_width
              (depth + 1) max_depth branch_data
          @ organic_calls end_pt (angle + right_spread) new_length new_width
              (depth + 1) max_depth branch_data)"
  by pat_completeness auto
termination
  by (relation "measure (\<lambda>(start, angle, len, width, depth, max_depth, branch_data).
        nat (max_depth + 1 - depth))") auto

definition organic_segment :: "rgba \<Rightarrow> branch_call \<Rightarrow> draw_op list" where
  "organic_segment color c =
     (let end_x = fst (c_start c) + c_len c * sin (radians (c_angle c));
          end_y = snd (c_start c) - c_len c * cos (radians (c_angle c));
          cap_r = c_width c / 2.2
      in [Line (c_start c) (end_x, end_y) color (max 1 (py_int (c_width c))),
          Ellipse (end_x - cap_r) (end_y - cap_r) (end_x + cap_r) (end_y + cap_r) color])"

text \<open>The segments of a drawing log are its \<open>draw.line\<close> calls.\<close>

fun is_line :: "draw_op \<Rightarrow> bool" where
  "is_line (Line _ _ _ _) = True"
| "is_line (Ellipse _ _ _ _ _) = False"
| "is_line (Polygon _ _) = False"

definition segments :: "draw_op list \<Rightarrow> draw_op list" where
  "segments ops = filter is_line ops"

text \<open>The branch table of the concrete scenario: only depth 0 has an entry.\<close>

definition scenario_table :: "int \<rightharpoonup> branch_params" where
  "scenario_table = [0 \<mapsto> \<lparr>spread = 30, length_factor = 0.6, width_factor = 0.7\<rparr>]"

section \<open>Images\<close>

text \<open>
  A Pillow image as the scripts use it: its size and the pixel access object returned by
  \<open>load()\<close>, indexed \<open>pixels[x, y]\<close>.  An RGBA image holds 4-tuples, an image of mode
  \<open>L\<close> holds one number per pixel.  Only coordinates inside the size belong to the image.
  The operations below are Pillow's, not the repository's; each is written down from
  Pillow's documented behaviour, as far as the scripts depend on it.
\<close>

record 'p image =
  im_width :: nat
  im_height :: nat
  im_px :: "nat \<times> nat \<Rightarrow> 'p"

definition alpha :: "rgba \<Rightarrow> nat" where
  "alpha p = (case p of (r, g, b, a) \<Rightarrow> a)"

text \<open>\<open>Image.new(mode, size, color)\<close>: every pixel is \<open>color\<close>; a negative width or height
  is a \<open>ValueError\<close>.\<close>

definition blank :: "nat \<times> nat \<Rightarrow> 'p \<Rightarrow> 'p image" where
  "blank sz color = \<lparr>im_width = fst sz, im_height = snd sz, im_px = (\<lambda>_. color)\<rparr>"

definition Image_new :: "int \<times> int \<Rightarrow> 'p \<Rightarrow> py_error + 'p image" where
  "Image_new sz color =
     (if fst sz < 0 \<or> snd sz < 0 then Inl ValueError
      else Inr (blank (nat (fst sz), nat (snd sz)) color))"

text \<open>\<open>img.crop((left, upper, right, lower))\<close> for a box with \<open>left \<le> right\<close> and
  \<open>upper \<le> lower\<close>, the only boxes the scripts build: the region is \<open>right - left\<close> wide
  and \<open>lower - upper\<close> high, and whatever lies outside the source is transparent black.\<close>

definition crop :: "rgba image \<Rightarrow> nat \<times> nat \<times> nat \<times> nat \<Rightarrow> rgba image" where
  "crop img box =
     (case box of (left, upper, right, lower) \<Rightarrow>
        \<lparr>im_width = right - left, im_height = lower - upper,
         im_px = (\<lambda>(x, y). if x + left < im_width img \<and> y + upper < im_height img
                            then im_px img (x + left, y + upper) else (0, 0, 0, 0))\<rparr>)"

text \<open>\<open>img.getbbox()\<close> on an RGBA image: the box of the pixels whose alpha is not zero, as
  (left, upper, right, lower) in Pillow's rectangle convention, where right and lower lie
  one past the last column and row (the box \<open>crop\<close> takes); \<open>None\<close> when there is no
  such pixel.\<close>

definition foreground :: "rgba image \<Rightarrow> (nat \<times> nat) list" where
  "foreground img =
     concat (map (\<lambda>y. map (\<lambda>x. (x, y))
                        (filter (\<lambda>x. alpha (im_px img (x, y)) \<noteq> 0) [0..<im_width img]))
                 [0..<im_height img])"

definition getbbox :: "rgba image \<Rightarrow> (nat \<times> nat \<times> nat \<times> nat) option" where
  "getbbox img =
     (let fg = foreground img in
      if fg = [] then None
      else Some (Min (set (map fst fg)), Min (set (map snd fg)),
                 Max (set (map fst fg)) + 1, Max (set (map snd fg)) + 1))"

text \<open>\<open>canvas.paste(im, (x, y), mask)\<close> with an RGBA mask: inside the canvas, each channel
  of the pixel under \<open>im\<close> is blended with the mask's alpha (255 copies \<open>im\<close>, 0 keeps the
  canvas); the part of \<open>im\<close> outside the canvas is dropped.\<close>

definition blend8 :: "nat \<Rightarrow> nat \<Rightarrow> nat \<Rightarrow> nat" where
  "blend8 m in1 in2 = (let t = in1 * (255 - m) + in2 * m + 128 in (t div 256 + t) div 256)"

definition blend_px :: "nat \<Rightarrow> rgba \<Rightarrow> rgba \<Rightarrow> rgba" where
  "blend_px m p q =
     (case p of (r1, g1, b1, a1) \<Rightarrow> case q of (r2, g2, b2, a2) \<Rightarrow>
        (blend8 m r1 r2, blend8 m g1 g2, blend8 m b1 b2, blend8 m a1 a2))"

definition paste :: "rgba image \<Rightarrow> rgba image \<Rightarrow> int \<times> int \<Rightarrow> rgba image \<Rightarrow> rgba image" where
  "paste canvas im box mask_im =
     canvas\<lparr>im_px := (\<lambda>(cx, cy).
        let sx = int cx - fst box; sy = int cy - snd box in
        if cx < im_width canvas \<and> cy < im_height canvas
           \<and> 0 \<le> sx \<and> sx < int (im_width im) \<and> 0 \<le> sy \<and> sy < int (im_height im)
        then blend_px (alpha (im_px mask_im (nat sx, nat sy))) (im_px canvas (cx, cy))
               (im_px im (nat sx, nat sy))
        else im_px canvas (cx, cy))\<rparr>"

text \<open>\<open>img.resize((w, h), Image.Resampling.LANCZOS)\<close>.  Pillow returns a copy when the
  size does not change and raises \<open>ValueError\<close> for a requested width or height below 1.
  The Lanczos resampling itself is the parameter \<open>lanczos\<close>: the filter is Pillow's
  fixed-point code and no script depends on its numbers.\<close>

type_synonym resampler = "rgba image \<Rightarrow> nat \<Rightarrow> nat \<Rightarrow> rgba image"

definition resize :: "resampler \<Rightarrow> rgba image \<Rightarrow> int \<times> int \<Rightarrow> py_error + rgba image" where
  "resize lanczos img sz =
     (if (int (im_width img), int (im_height img)) = sz then Inr img
      else if fst sz < 1 \<or> snd sz < 1 then Inl ValueError
      else Inr (lanczos img (nat (fst sz)) (nat (snd sz))))"

text \<open>A nearest-neighbour resampler, to have one concrete resampler at hand.\<close>

definition nearest :: resampler where
  "nearest img w h =
     \<lparr>im_width = w, im_height = h,
      im_px = (\<lambda>(x, y).
         let sx = x * im_width img div w; sy = y * im_height img div h in
         if sx < im_width img \<and> sy < im_height img then im_px img (sx, sy) else (0, 0, 0, 0))\<rparr>"

text \<open>An image is fully transparent when every pixel inside it has alpha 0.\<close>

definition transparent :: "rgba image \<Rightarrow> bool" where
  "transparent img \<longleftrightarrow>
     (\<forall>y \<in> set [0..<im_height img]. \<forall>x \<in> set [0..<im_width img]. alpha (im_px img (x, y)) = 0)"

section \<open>trace_logo.py\<close>

text \<open>
  \<open>trace_reference\<close> opens a fixed file; the model takes the decoded RGBA image \<open>ref\<close>
  instead.  \<open>convert('L')\<close> is Pillow's luma transform, the parameter \<open>to_L\<close>, applied to
  each pixel; \<open>point\<close> maps a function over the pixels.  The function returns the pair
  \<open>(result, binary)\<close>.
\<close>

definition convert_L :: "(rgba \<Rightarrow> nat) \<Rightarrow> rgba image \<Rightarrow> nat image" where
  "convert_L to_L img =
     \<lparr>im_width = im_width img, im_height = im_height img, im_px = (\<lambda>q. to_L (im_px img q))\<rparr>"

definition point :: "nat image \<Rightarrow> (nat \<Rightarrow> nat) \<Rightarrow> nat image" where
  "point img f = img\<lparr>im_px := (\<lambda>q. f (im_px img q))\<rparr>"

definition trace_reference :: "(rgba \<Rightarrow> nat) \<Rightarrow> rgba image \<Rightarrow> rgba image \<times> nat image" where
  "trace_reference to_L ref =
     (let width = im_width ref;
          height = im_height ref;
          left_half = crop ref (0, 0, width div 2, height);
          gray = convert_L to_L left_half;
          threshold = 128;
          binary = point gray (\<lambda>p. if p < threshold then 255 else 0);
          result = blank (im_width binary, im_height binary) (0, 0, 0, 0);
          pixels = im_px binary;
          result_pixels =
            fold (\<lambda>y rp.
                    fold (\<lambda>x rp. if pixels (x, y) = 255 then rp((x, y) := (0, 0, 0, 255)) else rp)
                      [0..<im_width binary] rp)
              [0..<im_height binary] (im_px result)
      in (result\<lparr>im_px := result_pixels\<rparr>, binary))"

text \<open>
  In \<open>clean_and_resize\<close> the padded size is \<open>int(max_dim / (1 - 2 * padding))\<close>, an
  integer read off a float quotient: the product, the difference, the conversion of
  \<open>max_dim\<close> and the quotient are each rounded by \<open>fl\<close>.  A float division by zero
  raises \<open>ZeroDivisionError\<close>.
\<close>

definition clean_and_resize ::
  "resampler \<Rightarrow> rgba image \<Rightarrow> int \<Rightarrow> real \<Rightarrow> py_error + rgba image"
where
  "clean_and_resize lanczos img target_size padding =
     (case getbbox img of
        Some bbox \<Rightarrow>
          let cropped = crop img bbox;
              cw = int (im_width cropped);
              ch = int (im_height cropped);
              max_dim = max cw ch;
              denominator = fl (1 - fl (2 * padding))
          in if denominator = 0 then Inl ZeroDivisionError
             else
               let padded_size = py_int (fl (fl (of_int max_dim) / denominator)) in
               (case Image_new (padded_size, padded_size) (0, 0, 0, 0) of
                  Inl e \<Rightarrow> Inl e
                | Inr canvas \<Rightarrow>
                    let x = (padded_size - cw) div 2;
                        y = (padded_size - ch) div 2;
                        canvas' = paste canvas cropped (x, y) cropped
                    in resize lanczos canvas' (target_size, target_size))
      | None \<Rightarrow> resize lanczos img (target_size, target_size))"

definition create_light_version :: "rgba image \<Rightarrow> rgba image" where
  "create_light_version dark_img =
     (let result = blank (im_width dark_img, im_height dark_img) (0, 0, 0, 0);
          pixels = im_px dark_img;
          result_pixels =
            fold (\<lambda>y rp.
                    fold (\<lambda>x rp. case pixels (x, y) of (r, g, b, a) \<Rightarrow>
                                    if a > 0 then rp((x, y) := (255, 255, 255, a)) else rp)
                      [0..<im_width dark_img] rp)
              [0..<im_height dark_img] (im_px result)
      in result\<lparr>im_px := result_pixels\<rparr>)"

section \<open>create_dock_logo_v2.py: the icon and its supersampled rendering\<close>

text \<open>
  The rendering scripts only draw through \<open>ImageDraw\<close>, so an image they build is kept
  as what \<open>Image.new\<close> was given (size and fill colour) and the log of the drawing calls
  made on it.  \<open>Image.new\<close> raises \<open>ValueError\<close> for a negative width or height.  The
  result of \<open>resize\<close> is kept as the requested size and the canvas it was resampled from:
  neither the rasteriser nor the Lanczos filter is modelled.  As for pixel images, Pillow
  returns a copy when the size does not change and raises \<open>ValueError\<close> for a requested
  width or height below 1.
\<close>

record canvas =
  cv_width :: nat
  cv_height :: nat
  cv_fill :: rgba
  cv_draw :: "draw_op list"









text \<open>A 16 x 16 image whose only pixels with non-zero alpha are (5, 5) and (10, 12).\<close>

definition two_pixel_image :: "rgba image" where
  "two_pixel_image =
     \<lparr>im_width = 16, im_height = 16,
      im_px = (\<lambda>q. if q = (5, 5) \<or> q = (10, 12) then (0, 0, 0, 255) else (0, 0, 0, 0))\<rparr>"

declare draw_branch.simps [simp del] branch_calls.simps [simp del]
  draw_organic_branch.simps [simp del] organic_calls.simps [simp del]

text \<open>Both recursions are total: every call strictly decreases \<open>max_depth + 1 - depth\<close>.\<close>

lemma draw_branch_total: "draw_branch_dom x"
proof -
  let ?m = "measure (\<lambda>(draw, start, angle, len, width, depth, max_depth, color).
      nat (max_depth + 1 - depth))"
  have "(a, b) \<in> ?m" if "draw_branch_rel a b" for a b
    using that by (rule draw_branch_rel.cases) auto
  then have "{(a, b). draw_branch_rel a b} \<subseteq> ?m"
    by auto
  with wf_measure have "wf {(a, b). draw_branch_rel a b}"
    by (rule wf_subset)
  then have "wfp draw_branch_rel"
    by (simp add: wfp_def)
  then show ?thesis
    by (rule accp_wfpD)
qed

lemma draw_organic_branch_total: "draw_organic_branch_dom x"
proof -
  let ?m = "measure (\<lambda>(draw, start, angle, len, width, depth, max_depth, color, branch_data).
      nat (max_depth + 1 - depth))"
  have "(a, b) \<in> ?m" if "draw_organic_branch_rel a b" for a b
    using that by (rule draw_organic_branch_rel.cases) auto
  then have "{(a, b). draw_organic_branch_rel a b} \<subseteq> ?m"
    by auto
  with wf_measure have "wf {(a, b). draw_organic_branch_rel a b}"
    by (rule wf_subset)
  then have "wfp draw_organic_branch_rel"
    by (simp add: wfp_def)
  then show ?thesis
    by (rule accp_wfpD)
qed

lemma draw_ellipse_cap:
  "draw_ellipse draw (x - r, y - r, x + r, y + r) color =
     (if r < 0 then (draw, Some ValueError)
      else (draw @ [Ellipse (x - r) (y - r) (x + r) (y + r) color], None))"
  by (simp add: draw_ellipse_def)

lemma branch_segment_rec:
  "branch_segment color \<lparr>c_start = s, c_angle = a, c_len = l, c_width = w, c_depth = d\<rparr> =
     (if w < 0
      then [Line s (fst s + l * sin (radians a), snd s - l * cos (radians a)) color
              (max 1 (py_int w))]
      else [Line s (fst s + l * sin (radians a), snd s - l * cos (radians a)) color
              (max 1 (py_int w)),
            Ellipse (fst s + l * sin (radians a) - w / 2) (snd s - l * cos (radians a) - w / 2)
                    (fst s + l * sin (radians a) + w / 2) (snd s - l * cos (radians a) + w / 2)
                    color])"
  by (simp add: branch_segment_def Let_def draw_ellipse_cap)

text \<open>Past the guard of \<open>draw_organic_branch\<close> the cap call cannot raise.\<close>

lemma organic_cap_never_raises:
  "\<not> (depth > max_depth \<or> len < 3 \<or> width < 1) \<Longrightarrow>
     draw_ellipse draw (x - width / 2.2, y - width / 2.2, x + width / 2.2, y + width / 2.2) color =
       (draw @ [Ellipse (x - width / 2.2) (y - width / 2.2) (x + width / 2.2) (y + width / 2.2)
                  color], None)"
  by (simp add: draw_ellipse_def)

lemma organic_segment_rec:
  "organic_segment color \<lparr>c_start = s, c_angle = a, c_len = l, c_width = w, c_depth = d\<rparr> =
     [Line s (fst s + l * sin (radians a), snd s - l * cos (radians a)) color (max 1 (py_int w)),
      Ellipse (fst s + l * sin (radians a) - w / 2.2) (snd s - l * cos (radians a) - w / 2.2)
              (fst s + l * sin (radians a) + w / 2.2) (snd s - l * cos (radians a) + w / 2.2) color]"
  by (simp add: organic_segment_def Let_def)

text \<open>The equations of \<open>draw_branch\<close> and of \<open>branch_calls\<close>, case by case.\<close>

lemma draw_branch_stop:
  "depth > max_depth \<or> len < 2 \<Longrightarrow>
     draw_branch draw start angle len width depth max_depth color = (draw, None)"
  by (subst draw_branch.simps) simp

lemma draw_branch_raise:
  "\<not> (depth > max_depth \<or> len < 2) \<Longrightarrow> width < 0 \<Longrightarrow>
     draw_branch draw start angle len width depth max_depth color =
       (draw @ [Line start (fst start + len * sin (radians angle),
                            snd start - len * cos (radians angle)) color (max 1 (py_int width))],
        Some ValueError)"
  by (subst draw_branch.simps) (simp add: Let_def draw_ellipse_cap)

lemma draw_branch_step:
  "\<not> (depth > max_depth \<or> len < 2) \<Longrightarrow> 0 \<le> width \<Longrightarrow>
     draw_branch draw start angle len width depth max_depth color =
       (let end_pt = (fst start + len * sin (radians angle),
                      snd start - len * cos (radians angle));
            drawn = draw @ branch_segment color
              \<lparr>c_start = start, c_angle = angle, c_len = len, c_width = width,
               c_depth = depth\<rparr>;
            left = draw_branch drawn end_pt (angle - (35 + of_int depth * 5))
              (len * 0.65) (width * 0.7) (depth + 1) max_depth color
        in if snd left \<noteq> None then left
           else draw_branch (fst left) end_pt (angle + (35 + of_int depth * 5))
                  (len * 0.65) (width * 0.7) (depth + 1) max_depth color)"
  by (subst draw_branch.simps) (simp add: Let_def draw_ellipse_cap branch_segment_rec)

lemma branch_calls_stop:
  "depth > max_depth \<or> len < 2 \<Longrightarrow>
     branch_calls start angle len width depth max_depth = ([], None)"
  by (subst branch_calls.simps) simp

lemma branch_calls_raise:
  "\<not> (depth > max_depth \<or> len < 2) \<Longrightarrow> width < 0 \<Longrightarrow>
     branch_calls start angle len width depth max_depth =
       ([\<lparr>c_start = start, c_angle = angle, c_len = len, c_width = width, c_depth = depth\<rparr>],
        Some ValueError)"
  by (subst branch_calls.simps) (simp add: Let_def)

lemma branch_calls_step:
  "\<not> (depth > max_depth \<or> len < 2) \<Longrightarrow> 0 \<le> width \<Longrightarrow>
     branch_calls start angle len width depth max_depth =
       (let end_pt = (fst start + len * sin (radians angle),
                      snd start - len * cos (radians angle));
            this = \<lparr>c_start = start, c_angle = angle, c_len = len, c_width = width,
                    c_depth = depth\<rparr>;
            left = branch_calls end_pt (angle - (35 + of_int depth * 5))
              (len * 0.65) (width * 0.7) (depth + 1) max_depth;
            right = branch_calls end_pt (angle + (35 + of_int depth * 5))
              (len * 0.65) (width * 0.7) (depth + 1) max_depth
        in if snd left \<noteq> None then (this # fst left, snd left)
           else (this # fst left @ fst right, snd right))"
  by (subst branch_calls.simps) (simp add: Let_def)

lemma branch_calls_depth:
  "c \<in> set (fst (branch_calls start angle len width depth max_depth)) \<Longrightarrow>
     depth \<le> c_depth c \<and> c_depth c \<le> max_depth"
proof (induction n \<equiv> "nat (max_depth + 1 - depth)" arbitrary: start angle len width depth)
  case 0
  then show ?case by (simp add: branch_calls_stop)
next
  case (Suc n)
  show ?case
  proof (cases "depth > max_depth \<or> len < 2")
    case True
    with Suc.prems show ?thesis by (simp add: branch_calls_stop)
  next
    case stop: False
    show ?thesis
    proof (cases "width < 0")
      case True
      with Suc.prems stop show ?thesis by (simp add: branch_calls_raise)
    next
      case False
      from Suc.hyps(2) have n: "n = nat (max_depth + 1 - (depth + 1))" by simp
      note ih = Suc.hyps(1) [OF n]
      from Suc.prems stop False show ?thesis
        by (auto simp: branch_calls_step Let_def split: if_splits dest: ih)
    qed
  qed
qed

lemma branch_calls_ok:
  "0 \<le> width \<Longrightarrow>
     snd (branch_calls start angle len width depth max_depth) = None
     \<and> (\<forall>c \<in> set (fst (branch_calls start angle len width depth max_depth)). 0 \<le> c_width c)"
proof (induction n \<equiv> "nat (max_depth + 1 - depth)" arbitrary: start angle len width depth)
  case 0
  then show ?case by (simp add: branch_calls_stop)
next
  case (Suc n)
  show ?case
  proof (cases "depth > max_depth \<or> len < 2")
    case True
    then show ?thesis by (simp add: branch_calls_stop)
  next
    case stop: False
    from Suc.hyps(2) have n: "n = nat (max_depth + 1 - (depth + 1))" by simp
    from Suc.prems have w': "0 \<le> width * 0.7" by simp
    note ih = Suc.hyps(1) [OF n w']
    from stop Suc.prems show ?thesis
      using ih by (auto simp: branch_calls_step Let_def)
  qed
qed

lemma branch_calls_count:
  "Suc (length (fst (branch_calls start angle len width depth max_depth)))
     \<le> 2 ^ nat (max_depth + 1 - depth)"
proof (induction n \<equiv> "nat (max_depth + 1 - depth)" arbitrary: start angle len width depth)
  case 0
  then show ?case by (simp add: branch_calls_stop)
next
  case (Suc n)
  show ?case
  proof (cases "depth > max_depth \<or> len < 2")
    case True
    then show ?thesis by (simp add: branch_calls_stop)
  next
    case stop: False
    from Suc.hyps(2) have n: "n = nat (max_depth + 1 - (depth + 1))" by simp
    note ih = Suc.hyps(1) [OF n]
    from ih [of "(fst start + len * sin (radians angle), snd start - len * cos (radians angle))"
        "angle - (35 + of_int depth * 5)" "len * 0.65" "width * 0.7"]
    have left: "Suc (length (fst (branch_calls
        (fst start + len * sin (radians angle), snd start - len * cos (radians angle))
        (angle - (35 + of_int depth * 5)) (len * 0.65) (width * 0.7) (depth + 1) max_depth)))
        \<le> 2 ^ n"
      using n by simp
    from ih [of "(fst start + len * sin (radians angle), snd start - len * cos (radians angle))"
        "angle + (35 + of_int depth * 5)" "len * 0.65" "width * 0.7"]
    have right: "Suc (length (fst (branch_calls
        (fst start + len * sin (radians angle), snd start - len * cos (radians angle))
        (angle + (35 + of_int depth * 5)) (len * 0.65) (width * 0.7) (depth + 1) max_depth)))
        \<le> 2 ^ n"
      using n by simp
    have pow: "(2::nat) ^ nat (max_depth + 1 - depth) = 2 * 2 ^ n"
      using Suc.hyps(2) [symmetric] by simp
    have one: "(1::nat) \<le> 2 ^ n" by simp
    show ?thesis
    proof (cases "width < 0")
      case True
      from one have "Suc (Suc 0) \<le> 2 * 2 ^ n" by linarith
      with True stop pow show ?thesis by (simp add: branch_calls_raise)
    next
      case False
      with stop pow left right show ?thesis
        by (simp add: branch_calls_step Let_def)
    qed
  qed
qed

lemma draw_branch_calls:
  "draw_branch draw start angle len width depth max_depth color =
     (draw @ concat (map (branch_segment color)
                (fst (branch_calls start angle len width depth max_depth))),
      snd (branch_calls start angle len width depth max_depth))"
proof (induction n \<equiv> "nat (max_depth + 1 - depth)"
    arbitrary: draw start angle len width depth)
  case 0
  then show ?case by (simp add: branch_calls_stop draw_branch_stop)
next
  case (Suc n)
  show ?case
  proof (cases "depth > max_depth \<or> len < 2")
    case True
    then show ?thesis by (simp add: branch_calls_stop draw_branch_stop)
  next
    case stop: False
    show ?thesis
    proof (cases "width < 0")
      case True
      with stop show ?thesis
        by (simp add: branch_calls_raise draw_branch_raise branch_segment_rec)
    next
      case False
      from Suc.hyps(2) have n: "n = nat (max_depth + 1 - (depth + 1))" by simp
      note ih = Suc.hyps(1) [OF n]
      from stop False show ?thesis
        by (simp add: branch_calls_step draw_branch_step Let_def ih)
    qed
  qed
qed

lemma draw_organic_branch_calls:
  "draw_organic_branch draw start angle len width depth max_depth color branch_data =
     draw @ concat (map (organic_segment color)
       (organic_calls start angle len width depth max_depth branch_data))"
proof (induction draw start angle len width depth max_depth color branch_data
    rule: draw_organic_branch.induct)
  case (1 draw start angle len width depth max_depth color branch_data)
  show ?case
  proof (cases "depth > max_depth \<or> len < 3 \<or> width < 1")
    case True
    then show ?thesis
      by (subst draw_organic_branch.simps, subst organic_calls.simps) simp
  next
    case False
    note ih = "1.IH"[OF False refl refl refl refl refl refl refl refl refl refl refl refl]
    show ?thesis
      by (subst draw_organic_branch.simps, subst organic_calls.simps)
         (use False ih in \<open>simp add: Let_def organic_segment_rec\<close>)
  qed
qed

lemma organic_calls_depth:
  "c \<in> set (organic_calls start angle len width depth max_depth branch_data) \<Longrightarrow>
     depth \<le> c_depth c \<and> c_depth c \<le> max_depth"
proof (induction start angle len width depth max_depth branch_data rule: organic_calls.induct)
  case (1 start angle len width depth max_depth branch_data)
  show ?case
  proof (cases "depth > max_depth \<or> len < 3 \<or> width < 1")
    case True
    with "1.prems" show ?thesis
      by (subst (asm) organic_calls.simps) simp
  next
    case False
    note ih = "1.IH"[OF False refl refl refl refl refl refl refl refl refl]
    from "1.prems" False show ?thesis
      by (subst (asm) organic_calls.simps) (use ih in \<open>auto simp: Let_def\<close>)
  qed
qed

lemma pow2_step:
  assumes "(d::int) \<le> m"
  shows "(2::nat) ^ nat (m + 1 - d) = 2 * 2 ^ nat (m + 1 - (d + 1))"
proof -
  from assms have a: "nat (m + 1 - d) = Suc (nat (m - d))" by simp
  have b: "m + 1 - (d + 1) = m - d" by simp
  show ?thesis by (simp only: a b power_Suc)
qed

lemma organic_calls_count:
  "Suc (length (organic_calls start angle len width depth max_depth branch_data))
     \<le> 2 ^ nat (max_depth + 1 - depth)"
proof (induction start angle len width depth max_depth branch_data rule: organic_calls.induct)
  case (1 start angle len width depth max_depth branch_data)
  show ?case
  proof (cases "depth > max_depth \<or> len < 3 \<or> width < 1")
    case True
    then show ?thesis
      by (subst organic_calls.simps) simp
  next
    case False
    note ih = "1.IH"[OF False refl refl refl refl refl refl refl refl refl]
    from False have "depth \<le> max_depth" by simp
    note p = pow2_step[OF this]
    show ?thesis
      by (subst organic_calls.simps) (use False ih p in \<open>simp add: Let_def\<close>)
  qed
qed

lemma branch_segment_lines: "length (filter is_line (branch_segment color c)) = 1"
  by (simp add: branch_segment_def Let_def draw_ellipse_cap)

lemma segments_branch: "length (segments (concat (map (branch_segment color) cs))) = length cs"
  by (induction cs) (simp_all add: segments_def branch_segment_lines)

lemma segments_organic: "length (segments (concat (map (organic_segment color) cs))) = length cs"
  by (induction cs) (simp_all add: segments_def organic_segment_def Let_def)


lemma radians_0: "radians 0 = 0"
  by (simp add: radians_def)

lemma radians_30: "radians 30 = pi / 6"
  by (simp add: radians_def)

lemma radians_minus_30: "radians (- 30) = - (pi / 6)"
  by (simp add: radians_def)

lemma py_int_numeral: "py_int (numeral n) = numeral n"
  by (simp add: py_int_def)

lemma scenario_calls:
  "organic_calls (100, 200) 0 50 10 0 1 scenario_table =
     [\<lparr>c_start = (100, 200), c_angle = 0, c_len = 50, c_width = 10, c_depth = 0\<rparr>,
      \<lparr>c_start = (100, 150), c_angle = - 30, c_len = 30, c_width = 7, c_depth = 1\<rparr>,
      \<lparr>c_start = (100, 150), c_angle = 30, c_len = 30, c_width = 7, c_depth = 1\<rparr>]"
  by (simp add: organic_calls.simps Let_def scenario_table_def radians_0 default_params_def)

lemma scenario_log:
  "draw_organic_branch draw (100, 200) 0 50 10 0 1 color scenario_table =
     draw @ [Line (100, 200) (100, 150) color 10,
             Ellipse (100 - 50 / 11) (150 - 50 / 11) (100 + 50 / 11) (150 + 50 / 11) color,
             Line (100, 150) (85, 150 - 15 * sqrt 3) color 7,
             Ellipse (85 - 35 / 11) (150 - 15 * sqrt 3 - 35 / 11)
                     (85 + 35 / 11) (150 - 15 * sqrt 3 + 35 / 11) color,
             Line (100, 150) (115, 150 - 15 * sqrt 3) color 7,
             Ellipse (115 - 35 / 11) (150 - 15 * sqrt 3 - 35 / 11)
                     (115 + 35 / 11) (150 - 15 * sqrt 3 + 35 / 11) color]"
  by (simp add: draw_organic_branch_calls scenario_calls organic_segment_rec py_int_numeral
        radians_0 radians_30 radians_minus_30 sin_30 cos_30)

section \<open>The branch synthesizer\<close>

text \<open>
  C1.  The scenario: start (100, 200), angle 0, length 50, width 10, depth 0,
  \<open>max_depth\<close> 1 and a table with the single entry 0: (30, 0.6, 0.7).
  \<open>draw_organic_branch\<close> draws the parent segment from (100, 200) to (100, 150) with line
  width 10 and then calls itself twice from (100, 150), at angles -30 and +30, with length
  30, width 7 and depth 1.  Each child draws its segment and calls itself twice at depth 2
  (length 18, width 4.9); these four calls return the canvas unchanged.  So the canvas
  receives three segments, each with its cap, from seven invocations; it does not receive
  seven segments.
\<close>

theorem organic_scenario:
  "draw_organic_branch draw (100, 200) 0 50 10 0 1 color scenario_table =
     draw_organic_branch
       (draw_organic_branch
          (draw @ [Line (100, 200) (100, 150) color 10,
                   Ellipse (100 - 50 / 11) (150 - 50 / 11) (100 + 50 / 11) (150 + 50 / 11) color])
          (100, 150) (- 30) 30 7 1 1 color scenario_table)
       (100, 150) 30 30 7 1 1 color scenario_table
   \<and> draw_organic_branch d (100, 150) (- 30) 30 7 1 1 color scenario_table =
     draw_organic_branch
       (draw_organic_branch
          (d @ [Line (100, 150) (85, 150 - 15 * sqrt 3) color 7,
                Ellipse (85 - 35 / 11) (150 - 15 * sqrt 3 - 35 / 11)
                        (85 + 35 / 11) (150 - 15 * sqrt 3 + 35 / 11) color])
          (85, 150 - 15 * sqrt 3) (- 73) 18 (49 / 10) 2 1 color scenario_table)
       (85, 150 - 15 * sqrt 3) 12 18 (49 / 10) 2 1 color scenario_table
   \<and> draw_organic_branch d (100, 150) 30 30 7 1 1 color scenario_table =
     draw_organic_branch
       (draw_organic_branch
          (d @ [Line (100, 150) (115, 150 - 15 * sqrt 3) color 7,
                Ellipse (115 - 35 / 11) (150 - 15 * sqrt 3 - 35 / 11)
                        (115 + 35 / 11) (150 - 15 * sqrt 3 + 35 / 11) color])
          (115, 150 - 15 * sqrt 3) (- 13) 18 (49 / 10) 2 1 color scenario_table)
       (115, 150 - 15 * sqrt 3) 72 18 (49 / 10) 2 1 color scenario_table
   \<and> draw_organic_branch d p a 18 (49 / 10) 2 1 color scenario_table = d
   \<and> draw_organic_branch draw (100, 200) 0 50 10 0 1 color scenario_table =
     draw @ [Line (100, 200) (100, 150) color 10,
             Ellipse (100 - 50 / 11) (150 - 50 / 11) (100 + 50 / 11) (150 + 50 / 11) color,
             Line (100, 150) (85, 150 - 15 * sqrt 3) color 7,
             Ellipse (85 - 35 / 11) (150 - 15 * sqrt 3 - 35 / 11)
                     (85 + 35 / 11) (150 - 15 * sqrt 3 + 35 / 11) color,
             Line (100, 150) (115, 150 - 15 * sqrt 3) color 7,
             Ellipse (115 - 35 / 11) (150 - 15 * sqrt 3 - 35 / 11)
                     (115 + 35 / 11) (150 - 15 * sqrt 3 + 35 / 11) color]
   \<and> organic_calls (100, 200) 0 50 10 0 1 scenario_table =
     [\<lparr>c_start = (100, 200), c_angle = 0, c_len = 50, c_width = 10, c_depth = 0\<rparr>,
      \<lparr>c_start = (100, 150), c_angle = - 30, c_len = 30, c_width = 7, c_depth = 1\<rparr>,
      \<lparr>c_start = (100, 150), c_angle = 30, c_len = 30, c_width = 7, c_depth = 1\<rparr>]
   \<and> length (segments (draw_organic_branch [] (100, 200) 0 50 10 0 1 color scenario_table)) = 3"
proof -
  have parent: "draw_organic_branch draw (100, 200) 0 50 10 0 1 color scenario_table =
     draw_organic_branch
       (draw_organic_branch
          (draw @ [Line (100, 200) (100, 150) color 10,
                   Ellipse (100 - 50 / 11) (150 - 50 / 11) (100 + 50 / 11) (150 + 50 / 11) color])
          (100, 150) (- 30) 30 7 1 1 color scenario_table)
       (100, 150) 30 30 7 1 1 color scenario_table"
    by (subst draw_organic_branch.simps)
       (simp add: Let_def scenario_table_def radians_0 py_int_numeral)
  have left: "draw_organic_branch d (100, 150) (- 30) 30 7 1 1 color scenario_table =
     draw_organic_branch
       (draw_organic_branch
          (d @ [Line (100, 150) (85, 150 - 15 * sqrt 3) color 7,
                Ellipse (85 - 35 / 11) (150 - 15 * sqrt 3 - 35 / 11)
                        (85 + 35 / 11) (150 - 15 * sqrt 3 + 35 / 11) color])
          (85, 150 - 15 * sqrt 3) (- 73) 18 (49 / 10) 2 1 color scenario_table)
       (85, 150 - 15 * sqrt 3) 12 18 (49 / 10) 2 1 color scenario_table"
    by (subst draw_organic_branch.simps)
       (simp add: Let_def scenario_table_def default_params_def radians_minus_30 sin_30 cos_30
          py_int_numeral)
  have right: "draw_organic_branch d (100, 150) 30 30 7 1 1 color scenario_table =
     draw_organic_branch
       (draw_organic_branch
          (d @ [Line (100, 150) (115, 150 - 15 * sqrt 3) color 7,
                Ellipse (115 - 35 / 11) (150 - 15 * sqrt 3 - 35 / 11)
                        (115 + 35 / 11) (150 - 15 * sqrt 3 + 35 / 11) color])
          (115, 150 - 15 * sqrt 3) (- 13) 18 (49 / 10) 2 1 color scenario_table)
       (115, 150 - 15 * sqrt 3) 72 18 (49 / 10) 2 1 color scenario_table"
    by (subst draw_organic_branch.simps)
       (simp add: Let_def scenario_table_def default_params_def radians_30 sin_30 cos_30
          py_int_numeral)
  have leaf: "draw_organic_branch d p a 18 (49 / 10) 2 1 color scenario_table = d"
    by (simp add: draw_organic_branch.simps)
  have count: "length (segments (draw_organic_branch [] (100, 200) 0 50 10 0 1 color
      scenario_table)) = 3"
    by (simp add: scenario_log segments_def)
  from parent left right leaf scenario_log scenario_calls count show ?thesis
    by (intro conjI)
qed

theorem organic_scenario_counterexample:
  "length (segments (draw_organic_branch [] (100, 200) 0 50 10 0 1 (0, 0, 0, 255)
     scenario_table)) \<noteq> 7"
  by (simp add: draw_organic_branch_calls scenario_calls organic_segment_rec segments_def)

text \<open>
  C2.  For \<open>max_depth \<ge> 0\<close> and a table whose decay factors lie in (0, 1],
  both branch functions, started at depth 0, terminate (their arguments are in the
  accessible part of the recursion relation), every invocation that draws has a depth
  between 0 and \<open>max_depth\<close>, the canvas receives exactly what those invocations draw,
  and the number of segments added is at most \<open>2 ^ (max_depth + 1) - 1\<close>.  For
  \<open>draw_branch\<close> this holds whether the run returns or ends in the exception of a cap
  call.
\<close>

theorem branch_recursion_bounded:
  assumes "0 \<le> max_depth"
    and "\<forall>d p. branch_data d = Some p \<longrightarrow>
           0 < length_factor p \<and> length_factor p \<le> 1 \<and> 0 < width_factor p \<and> width_factor p \<le> 1"
  shows "draw_organic_branch_dom (draw, start, angle, len, width, 0, max_depth, color, branch_data)
       \<and> draw_organic_branch draw start angle len width 0 max_depth color branch_data =
           draw @ concat (map (organic_segment color)
                    (organic_calls start angle len width 0 max_depth branch_data))
       \<and> (\<forall>c \<in> set (organic_calls start angle len width 0 max_depth branch_data).
             0 \<le> c_depth c \<and> c_depth c \<le> max_depth)
       \<and> length (segments (draw_organic_branch [] start angle len width 0 max_depth color
             branch_data)) \<le> 2 ^ nat (max_depth + 1) - 1
       \<and> draw_branch_dom (draw, start, angle, len, width, 0, max_depth, color)
       \<and> draw_branch draw start angle len width 0 max_depth color =
           (draw @ concat (map (branch_segment color)
                     (fst (branch_calls start angle len width 0 max_depth))),
            snd (branch_calls start angle len width 0 max_depth))
       \<and> (\<forall>c \<in> set (fst (branch_calls start angle len width 0 max_depth)).
             0 \<le> c_depth c \<and> c_depth c \<le> max_depth)
       \<and> length (segments (fst (draw_branch [] start angle len width 0 max_depth color)))
             \<le> 2 ^ nat (max_depth + 1) - 1"
proof -
  have o_depth: "\<forall>c \<in> set (organic_calls start angle len width 0 max_depth branch_data).
      0 \<le> c_depth c \<and> c_depth c \<le> max_depth"
    using organic_calls_depth by blast
  have b_depth: "\<forall>c \<in> set (fst (branch_calls start angle len width 0 max_depth)).
      0 \<le> c_depth c \<and> c_depth c \<le> max_depth"
    using branch_calls_depth by blast
  have "Suc (length (organic_calls start angle len width 0 max_depth branch_data))
      \<le> 2 ^ nat (max_depth + 1 - 0)"
    by (rule organic_calls_count)
  then have o_count: "length (segments (draw_organic_branch [] start angle len width 0
      max_depth color branch_data)) \<le> 2 ^ nat (max_depth + 1) - 1"
    by (simp add: draw_organic_branch_calls segments_organic)
  have "Suc (length (fst (branch_calls start angle len width 0 max_depth)))
      \<le> 2 ^ nat (max_depth + 1 - 0)"
    by (rule branch_calls_count)
  then have b_count: "length (segments (fst (draw_branch [] start angle len width 0 max_depth
      color))) \<le> 2 ^ nat (max_depth + 1) - 1"
    by (simp add: draw_branch_calls segments_branch)
  have b_log: "draw_branch draw start angle len width 0 max_depth color =
      (draw @ concat (map (branch_segment color)
                (fst (branch_calls start angle len width 0 max_depth))),
       snd (branch_calls start angle len width 0 max_depth))"
    by (rule draw_branch_calls)
  have o_log: "draw_organic_branch draw start angle len width 0 max_depth color branch_data =
      draw @ concat (map (organic_segment color)
               (organic_calls start angle len width 0 max_depth branch_data))"
    by (rule draw_organic_branch_calls)
  from draw_organic_branch_total o_log o_depth o_count draw_branch_total b_log b_depth b_count
  show ?thesis
    by (intro conjI)
qed

theorem branch_recursion_bounded_witness:
  "(0::int) \<le> 1
   \<and> list_all (\<lambda>c. 0 \<le> c_depth c \<and> c_depth c \<le> 1)
         (organic_calls (100, 200) 0 50 10 0 1 scenario_table)
   \<and> length (segments (draw_organic_branch [] (100, 200) 0 50 10 0 1 (0, 0, 0, 255)
         scenario_table)) \<le> 2 ^ nat (1 + 1) - 1
   \<and> list_all (\<lambda>c. 0 \<le> c_depth c \<and> c_depth c \<le> 1)
         (fst (branch_calls (100, 200) 0 50 10 0 1))
   \<and> length (segments (fst (draw_branch [] (100, 200) 0 50 10 0 1 (0, 0, 0, 255))))
         \<le> 2 ^ nat (1 + 1) - 1"
proof -
  have h1: "(0::int) \<le> 1" by simp
  have h2: "\<forall>d p. scenario_table d = Some p \<longrightarrow>
      0 < length_factor p \<and> length_factor p \<le> 1 \<and> 0 < width_factor p \<and> width_factor p \<le> 1"
    by (simp add: scenario_table_def)
  show ?thesis
    unfolding list_all_iff
    using h1 branch_recursion_bounded [OF h1 h2, of "[]" "(100, 200)" 0 50 10 "(0, 0, 0, 255)"]
    by blast
qed

text \<open>
  C7.  \<open>draw_organic_branch\<close> returns the canvas untouched exactly when
  \<open>depth > max_depth\<close> or the length is below 3 or the width is below 1.  \<open>draw_branch\<close>
  returns the canvas untouched exactly when \<open>depth > max_depth\<close> or the length is below 2;
  it has no test on the width.  Otherwise \<open>draw_organic_branch\<close> draws its line and cap
  and then makes its left and its right recursive call, at depth + 1, on the canvas so far;
  \<open>draw_branch\<close> draws its line and, whenever the width is not negative, does the same
  as \<open>draw_organic_branch\<close>, and none of its calls raises.
\<close>

theorem branch_guard:
  "(draw_organic_branch draw start angle len width depth max_depth color branch_data = draw
      \<longleftrightarrow> depth > max_depth \<or> len < 3 \<or> width < 1)
   \<and> (draw_branch draw start angle len width depth max_depth color = (draw, None)
      \<longleftrightarrow> depth > max_depth \<or> len < 2)
   \<and> (fst (draw_branch draw start angle len width depth max_depth color) = draw
      \<longleftrightarrow> depth > max_depth \<or> len < 2)
   \<and> (\<not> (depth > max_depth \<or> len < 3 \<or> width < 1) \<longrightarrow>
        draw_organic_branch draw start angle len width depth max_depth color branch_data =
          (let end_pt = (fst start + len * sin (radians angle),
                         snd start - len * cos (radians angle));
               params = (case branch_data depth of None \<Rightarrow> default_params | Some p \<Rightarrow> p);
               new_length = len * length_factor params;
               new_width = width * width_factor params;
               drawn = draw @ organic_segment color
                 \<lparr>c_start = start, c_angle = angle, c_len = len, c_width = width,
                  c_depth = depth\<rparr>;
               left = draw_organic_branch drawn end_pt
                 (angle - (spread params + of_int (depth * 3))) new_length new_width
                 (depth + 1) max_depth color branch_data
           in draw_organic_branch left end_pt
                (angle + (spread params + of_int (depth * 2))) new_length new_width
                (depth + 1) max_depth color branch_data))
   \<and> (\<not> (depth > max_depth \<or> len < 2) \<and> 0 \<le> width \<longrightarrow>
        (let end_x = fst start + len * sin (radians angle);
             end_y = snd start - len * cos (radians angle);
             drawn = draw @ [Line start (end_x, end_y) color (max 1 (py_int width)),
                             Ellipse (end_x - width / 2) (end_y - width / 2)
                                     (end_x + width / 2) (end_y + width / 2) color];
             left = draw_branch drawn (end_x, end_y) (angle - (35 + of_int depth * 5))
               (len * 0.65) (width * 0.7) (depth + 1) max_depth color
         in snd left = None
            \<and> draw_branch draw start angle len width depth max_depth color =
                draw_branch (fst left) (end_x, end_y) (angle + (35 + of_int depth * 5))
                  (len * 0.65) (width * 0.7) (depth + 1) max_depth color
            \<and> snd (draw_branch draw start angle len width depth max_depth color) = None))
   \<and> (\<not> (depth > max_depth \<or> len < 2) \<longrightarrow>
        (\<exists>rest. fst (draw_branch draw start angle len width depth max_depth color) =
           draw @ Line start (fst start + len * sin (radians angle),
                              snd start - len * cos (radians angle)) color
                    (max 1 (py_int width)) # rest))"
proof -
  have o_stop: "draw_organic_branch draw start angle len width depth max_depth color
      branch_data = draw" if "depth > max_depth \<or> len < 3 \<or> width < 1"
    using that by (subst draw_organic_branch.simps) simp
  have o_go: "draw_organic_branch draw start angle len width depth max_depth color
      branch_data \<noteq> draw" if "\<not> (depth > max_depth \<or> len < 3 \<or> width < 1)"
    unfolding draw_organic_branch_calls
    by (subst organic_calls.simps) (use that in \<open>simp add: Let_def organic_segment_rec\<close>)
  have b_go: "fst (draw_branch draw start angle len width depth max_depth color) \<noteq> draw"
    if go: "\<not> (depth > max_depth \<or> len < 2)"
  proof (cases "width < 0")
    case True
    with go show ?thesis by (simp add: draw_branch_raise)
  next
    case False
    with go show ?thesis
      by (simp add: draw_branch_calls branch_calls_step Let_def branch_segment_rec)
  qed
  have o_rec: "\<not> (depth > max_depth \<or> len < 3 \<or> width < 1) \<longrightarrow>
        draw_organic_branch draw start angle len width depth max_depth color branch_data =
          (let end_pt = (fst start + len * sin (radians angle),
                         snd start - len * cos (radians angle));
               params = (case branch_data depth of None \<Rightarrow> default_params | Some p \<Rightarrow> p);
               new_length = len * length_factor params;
               new_width = width * width_factor params;
               drawn = draw @ organic_segment color
                 \<lparr>c_start = start, c_angle = angle, c_len = len, c_width = width,
                  c_depth = depth\<rparr>;
               left = draw_organic_branch drawn end_pt
                 (angle - (spread params + of_int (depth * 3))) new_length new_width
                 (depth + 1) max_depth color branch_data
           in draw_organic_branch left end_pt
                (angle + (spread params + of_int (depth * 2))) new_length new_width
                (depth + 1) max_depth color branch_data)"
    by (subst draw_organic_branch.simps) (simp add: Let_def organic_segment_rec)
  have b_rec: "\<not> (depth > max_depth \<or> len < 2) \<and> 0 \<le> width \<longrightarrow>
        (let end_x = fst start + len * sin (radians angle);
             end_y = snd start - len * cos (radians angle);
             drawn = draw @ [Line start (end_x, end_y) color (max 1 (py_int width)),
                             Ellipse (end_x - width / 2) (end_y - width / 2)
                                     (end_x + width / 2) (end_y + width / 2) color];
             left = draw_branch drawn (end_x, end_y) (angle - (35 + of_int depth * 5))
               (len * 0.65) (width * 0.7) (depth + 1) max_depth color
         in snd left = None
            \<and> draw_branch draw start angle len width depth max_depth color =
                draw_branch (fst left) (end_x, end_y) (angle + (35 + of_int depth * 5))
                  (len * 0.65) (width * 0.7) (depth + 1) max_depth color
            \<and> snd (draw_branch draw start angle len width depth max_depth color) = None)"
  proof
    assume a: "\<not> (depth > max_depth \<or> len < 2) \<and> 0 \<le> width"
    then have w': "0 \<le> width * 0.7" by simp
    have none: "snd (draw_branch d s b l (width * 0.7) k max_depth color) = None" for d s b l k
      using branch_calls_ok [OF w'] by (simp add: draw_branch_calls)
    have top: "snd (draw_branch draw start angle len width depth max_depth color) = None"
      using a branch_calls_ok [of width] by (simp add: draw_branch_calls)
    from a have "draw_branch draw start angle len width depth max_depth color =
        (let end_pt = (fst start + len * sin (radians angle),
                       snd start - len * cos (radians angle));
             drawn = draw @ branch_segment color
               \<lparr>c_start = start, c_angle = angle, c_len = len, c_width = width,
                c_depth = depth\<rparr>;
             left = draw_branch drawn end_pt (angle - (35 + of_int depth * 5))
               (len * 0.65) (width * 0.7) (depth + 1) max_depth color
         in if snd left \<noteq> None then left
            else draw_branch (fst left) end_pt (angle + (35 + of_int depth * 5))
                   (len * 0.65) (width * 0.7) (depth + 1) max_depth color)"
      by (simp add: draw_branch_step)
    with a none top show "(let end_x = fst start + len * sin (radians angle);
             end_y = snd start - len * cos (radians angle);
             drawn = draw @ [Line start (end_x, end_y) color (max 1 (py_int width)),
                             Ellipse (end_x - width / 2) (end_y - width / 2)
                                     (end_x + width / 2) (end_y + width / 2) color];
             left = draw_branch drawn (end_x, end_y) (angle - (35 + of_int depth * 5))
               (len * 0.65) (width * 0.7) (depth + 1) max_depth color
         in snd left = None
            \<and> draw_branch draw start angle len width depth max_depth color =
                draw_branch (fst left) (end_x, end_y) (angle + (35 + of_int depth * 5))
                  (len * 0.65) (width * 0.7) (depth + 1) max_depth color
            \<and> snd (draw_branch draw start angle len width depth max_depth color) = None)"
      by (simp add: Let_def branch_segment_rec)
  qed
  from o_stop o_go have o_iff:
    "draw_organic_branch draw start angle len width depth max_depth color branch_data = draw
      \<longleftrightarrow> depth > max_depth \<or> len < 3 \<or> width < 1"
    by blast
  from b_go have b_iff:
    "draw_branch draw start angle len width depth max_depth color = (draw, None)
      \<longleftrightarrow> depth > max_depth \<or> len < 2"
    by (cases "depth > max_depth \<or> len < 2") (auto simp: draw_branch_stop)
  from b_go have b_iff':
    "fst (draw_branch draw start angle len width depth max_depth color) = draw
      \<longleftrightarrow> depth > max_depth \<or> len < 2"
    by (cases "depth > max_depth \<or> len < 2") (auto simp: draw_branch_stop)
  have b_line: "\<not> (depth > max_depth \<or> len < 2) \<longrightarrow>
        (\<exists>rest. fst (draw_branch draw start angle len width depth max_depth color) =
           draw @ Line start (fst start + len * sin (radians angle),
                              snd start - len * cos (radians angle)) color
                    (max 1 (py_int width)) # rest)"
  proof
    assume go: "\<not> (depth > max_depth \<or> len < 2)"
    show "\<exists>rest. fst (draw_branch draw start angle len width depth max_depth color) =
           draw @ Line start (fst start + len * sin (radians angle),
                              snd start - len * cos (radians angle)) color
                    (max 1 (py_int width)) # rest"
    proof (cases "width < 0")
      case True
      with go show ?thesis by (simp add: draw_branch_raise)
    next
      case False
      with go show ?thesis
        by (simp add: draw_branch_calls branch_calls_step Let_def branch_segment_rec)
    qed
  qed
  from o_iff b_iff b_iff' o_rec b_rec b_line show ?thesis
    by (intro conjI)
qed

theorem branch_guard_witness:
  "draw_organic_branch [] (100, 200) 0 50 (1 / 2) 0 4 (0, 0, 0, 255) Map.empty = []
   \<and> draw_branch [] (100, 200) 0 1 10 0 4 (0, 0, 0, 255) = ([], None)
   \<and> draw_organic_branch [] (100, 200) 0 50 10 0 4 (0, 0, 0, 255) Map.empty \<noteq> []
   \<and> fst (draw_branch [] (100, 200) 0 50 10 0 4 (0, 0, 0, 255)) \<noteq> []
   \<and> snd (draw_branch [] (100, 200) 0 50 10 0 4 (0, 0, 0, 255)) = None"
proof -
  have "draw_organic_branch [] (100, 200) 0 50 (1 / 2) 0 4 (0, 0, 0, 255) Map.empty = []"
    using branch_guard [of "[]" "(100, 200)" 0 50 "1 / 2" 0 4 "(0, 0, 0, 255)" Map.empty,
        THEN conjunct1]
    by simp
  moreover have "draw_branch [] (100, 200) 0 1 10 0 4 (0, 0, 0, 255) = ([], None)"
    using branch_guard [of "[]" "(100, 200)" 0 1 10 0 4 "(0, 0, 0, 255)" Map.empty,
        THEN conjunct2, THEN conjunct1]
    by simp
  moreover have "draw_organic_branch [] (100, 200) 0 50 10 0 4 (0, 0, 0, 255) Map.empty \<noteq> []"
    using branch_guard [of "[]" "(100, 200)" 0 50 10 0 4 "(0, 0, 0, 255)" Map.empty,
        THEN conjunct1]
    by simp
  moreover have "fst (draw_branch [] (100, 200) 0 50 10 0 4 (0, 0, 0, 255)) \<noteq> []"
    using branch_guard [of "[]" "(100, 200)" 0 50 10 0 4 "(0, 0, 0, 255)" Map.empty,
        THEN conjunct2, THEN conjunct2, THEN conjunct1]
    by simp
  moreover have "snd (draw_branch [] (100, 200) 0 50 10 0 4 (0, 0, 0, 255)) = None"
  proof -
    have hyp: "\<not> ((0::int) > 4 \<or> (50::real) < 2) \<and> (0::real) \<le> 10" by simp
    from branch_guard [of "[]" "(100, 200)" 0 50 10 0 4 "(0, 0, 0, 255)" Map.empty,
        THEN conjunct2, THEN conjunct2, THEN conjunct2, THEN conjunct2, THEN conjunct1,
        unfolded Let_def, rule_format, OF hyp]
    show ?thesis by blast
  qed
  ultimately show ?thesis by blast
qed

theorem branch_guard_counterexample:
  "(1 / 2 :: real) < 1
   \<and> draw_branch [] (0, 0) 0 10 (1 / 2) 0 0 (0, 0, 0, 255) =
       ([Line (0, 0) (0, - 10) (0, 0, 0, 255) 1,
         Ellipse (- (1 / 4)) (- (41 / 4)) (1 / 4) (- (39 / 4)) (0, 0, 0, 255)], None)"
  by (simp add: draw_branch_calls branch_calls_step branch_calls_stop Let_def
        branch_segment_rec radians_0 py_int_def)

text \<open>
  C8.  Every segment \<open>draw_branch\<close> draws when called with a width that is not negative
  is capped by an ellipse whose box is centred at the segment's endpoint with radius
  exactly \<open>width / 2\<close>, the width being the invocation's stroke width parameter, and the
  run raises no exception; every segment \<open>draw_organic_branch\<close> draws is capped the same
  way with radius \<open>width / 2.2\<close>.  The canvas log of each function is the concatenation
  of these line-and-cap pairs, one per drawing invocation.
\<close>

theorem branch_cap_radius:
  "(0 \<le> width \<longrightarrow>
      draw_branch draw start angle len width depth max_depth color =
        (draw @ concat (map (branch_segment color)
                  (fst (branch_calls start angle len width depth max_depth))), None)
      \<and> (\<forall>c \<in> set (fst (branch_calls start angle len width depth max_depth)).
           \<exists>end_x end_y.
             branch_segment color c =
               [Line (c_start c) (end_x, end_y) color (max 1 (py_int (c_width c))),
                Ellipse (end_x - c_width c / 2) (end_y - c_width c / 2)
                        (end_x + c_width c / 2) (end_y + c_width c / 2) color]))
   \<and> draw_organic_branch draw start angle len width depth max_depth color branch_data =
     draw @ concat (map (organic_segment color)
              (organic_calls start angle len width depth max_depth branch_data))
   \<and> (\<forall>c \<in> set (organic_calls start angle len width depth max_depth branch_data).
        \<exists>end_x end_y.
          organic_segment color c =
            [Line (c_start c) (end_x, end_y) color (max 1 (py_int (c_width c))),
             Ellipse (end_x - c_width c / 2.2) (end_y - c_width c / 2.2)
                     (end_x + c_width c / 2.2) (end_y + c_width c / 2.2) color])"
proof -
  have b: "draw_branch draw start angle len width depth max_depth color =
        (draw @ concat (map (branch_segment color)
                  (fst (branch_calls start angle len width depth max_depth))), None)
      \<and> (\<forall>c \<in> set (fst (branch_calls start angle len width depth max_depth)).
           \<exists>end_x end_y.
             branch_segment color c =
               [Line (c_start c) (end_x, end_y) color (max 1 (py_int (c_width c))),
                Ellipse (end_x - c_width c / 2) (end_y - c_width c / 2)
                        (end_x + c_width c / 2) (end_y + c_width c / 2) color])"
    if w: "0 \<le> width"
  proof -
    note ok = branch_calls_ok [OF w, of start angle len depth max_depth]
    have "branch_segment color c =
        [Line (c_start c) (fst (c_start c) + c_len c * sin (radians (c_angle c)),
           snd (c_start c) - c_len c * cos (radians (c_angle c))) color
           (max 1 (py_int (c_width c))),
         Ellipse (fst (c_start c) + c_len c * sin (radians (c_angle c)) - c_width c / 2)
                 (snd (c_start c) - c_len c * cos (radians (c_angle c)) - c_width c / 2)
                 (fst (c_start c) + c_len c * sin (radians (c_angle c)) + c_width c / 2)
                 (snd (c_start c) - c_len c * cos (radians (c_angle c)) + c_width c / 2) color]"
      if "c \<in> set (fst (branch_calls start angle len width depth max_depth))" for c
    proof -
      from ok that have "0 \<le> c_width c" by blast
      then show ?thesis
        by (simp add: branch_segment_def Let_def draw_ellipse_cap)
    qed
    then have "\<forall>c \<in> set (fst (branch_calls start angle len width depth max_depth)).
           \<exists>end_x end_y.
             branch_segment color c =
               [Line (c_start c) (end_x, end_y) color (max 1 (py_int (c_width c))),
                Ellipse (end_x - c_width c / 2) (end_y - c_width c / 2)
                        (end_x + c_width c / 2) (end_y + c_width c / 2) color]"
      by blast
    with ok show ?thesis
      by (simp add: draw_branch_calls)
  qed
  have o: "\<forall>c \<in> set (organic_calls start angle len width depth max_depth branch_data).
        \<exists>end_x end_y.
          organic_segment color c =
            [Line (c_start c) (end_x, end_y) color (max 1 (py_int (c_width c))),
             Ellipse (end_x - c_width c / 2.2) (end_y - c_width c / 2.2)
                     (end_x + c_width c / 2.2) (end_y + c_width c / 2.2) color]"
    by (simp add: organic_segment_def Let_def)
  from b o draw_organic_branch_calls [of draw start angle len width depth max_depth color
      branch_data]
  show ?thesis by blast
qed

theorem branch_cap_radius_witness:
  "(0::real) \<le> 10
   \<and> draw_branch [] (100, 200) 0 50 10 0 0 (0, 0, 0, 255) =
     ([Line (100, 200) (100, 150) (0, 0, 0, 255) 10,
       Ellipse (100 - 10 / 2) (150 - 10 / 2) (100 + 10 / 2) (150 + 10 / 2) (0, 0, 0, 255)],
      None)"
proof -
  have w: "(0::real) \<le> 10" by simp
  from branch_cap_radius [of 10 "[]" "(100, 200)" 0 50 0 0 "(0, 0, 0, 255)" Map.empty,
      THEN conjunct1, rule_format, OF w]
  have "draw_branch [] (100, 200) 0 50 10 0 0 (0, 0, 0, 255) =
      ([] @ concat (map (branch_segment (0, 0, 0, 255))
                (fst (branch_calls (100, 200) 0 50 10 0 0))), None)"
    by blast
  then show ?thesis
    by (simp add: branch_calls_step branch_calls_stop Let_def branch_segment_rec radians_0
          py_int_numeral)
qed

theorem branch_cap_radius_counterexample:
  "draw_organic_branch [] (100, 200) 0 50 10 0 0 (0, 0, 0, 255) Map.empty =
     [Line (100, 200) (100, 150) (0, 0, 0, 255) 10,
      Ellipse (100 - 50 / 11) (150 - 50 / 11) (100 + 50 / 11) (150 + 50 / 11) (0, 0, 0, 255)]
   \<and> (50 / 11 :: real) \<noteq> 10 / 2"
  by (simp add: draw_organic_branch_calls organic_calls.simps Let_def organic_segment_rec
        radians_0 py_int_numeral)

lemma row_fold:
  "fold (\<lambda>x rp. if c x then rp((x, y) := v x) else rp) [0..<n] rp0 =
     (\<lambda>q. if snd q = y \<and> fst q < n \<and> c (fst q) then v (fst q) else rp0 q)"
proof (induction n)
  case 0
  show ?case by simp
next
  case (Suc n)
  show ?case
    by (simp add: Suc fun_eq_iff less_Suc_eq)
qed

lemma grid_fold:
  "fold (\<lambda>y rp. fold (\<lambda>x rp. if c x y then rp((x, y) := v x y) else rp) [0..<w] rp) [0..<h] rp0 =
     (\<lambda>q. if fst q < w \<and> snd q < h \<and> c (fst q) (snd q) then v (fst q) (snd q) else rp0 q)"
proof -
  have "fold (\<lambda>y rp q. if snd q = y \<and> fst q < w \<and> c (fst q) y then v (fst q) y else rp q)
          [0..<h] rp0 =
        (\<lambda>q. if fst q < w \<and> snd q < h \<and> c (fst q) (snd q) then v (fst q) (snd q) else rp0 q)"
  proof (induction h)
    case 0
    show ?case by simp
  next
    case (Suc h)
    show ?case
      by (simp add: Suc fun_eq_iff less_Suc_eq)
  qed
  then show ?thesis
    by (simp add: row_fold)
qed

lemma alpha_simp [simp]: "alpha (r, g, b, a) = a"
  by (simp add: alpha_def)

lemma alpha_snd: "snd (snd (snd p)) = alpha p"
  by (simp add: alpha_def split_def)

lemma create_light_version_px:
  "create_light_version img =
     \<lparr>im_width = im_width img, im_height = im_height img,
      im_px = (\<lambda>q. if fst q < im_width img \<and> snd q < im_height img \<and> 0 < alpha (im_px img q)
                    then (255, 255, 255, alpha (im_px img q)) else (0, 0, 0, 0))\<rparr>"
  by (simp add: create_light_version_def Let_def split_def alpha_snd grid_fold blank_def
        cong: if_cong)

lemma trace_reference_px:
  "fst (trace_reference to_L ref) =
     \<lparr>im_width = im_width ref div 2, im_height = im_height ref,
      im_px = (\<lambda>q. if fst q < im_width ref div 2 \<and> snd q < im_height ref
                       \<and> to_L (im_px ref q) < 128
                    then (0, 0, 0, 255) else (0, 0, 0, 0))\<rparr>"
  unfolding trace_reference_def Let_def grid_fold
  by (auto simp add: blank_def point_def convert_L_def crop_def fun_eq_iff)


lemma set_foreground:
  "set (foreground img) =
     {(x, y). x < im_width img \<and> y < im_height img \<and> alpha (im_px img (x, y)) \<noteq> 0}"
  by (auto simp: foreground_def)

lemma getbbox_of_set:
  assumes "set (foreground img) = {(5, 5), (10, 12)}"
  shows "getbbox img = Some (5, 5, 11, 13)"
proof -
  from assms have ne: "foreground img \<noteq> []" by auto
  from assms have xs: "set (map fst (foreground img)) = {5, 10}"
    and ys: "set (map snd (foreground img)) = {5, 12}" by simp_all
  show ?thesis
    unfolding getbbox_def Let_def xs ys using ne by simp
qed

lemma two_pixel_foreground: "set (foreground two_pixel_image) = {(5, 5), (10, 12)}"
  unfolding set_foreground by (auto simp: two_pixel_image_def split: if_splits)

lemma two_pixel_image_bbox: "getbbox two_pixel_image = Some (5, 5, 11, 13)"
  using two_pixel_foreground by (rule getbbox_of_set)

lemma transparent_iff: "transparent img \<longleftrightarrow> foreground img = []"
proof -
  have "foreground img = [] \<longleftrightarrow> set (foreground img) = {}" by simp
  also have "\<dots> \<longleftrightarrow> transparent img"
    unfolding set_foreground transparent_def by auto
  finally show ?thesis by simp
qed

lemma getbbox_None: "getbbox img = None \<longleftrightarrow> transparent img"
  by (simp add: getbbox_def Let_def transparent_iff)

lemma nearest_size: "im_width (nearest im w h) = w \<and> im_height (nearest im w h) = h"
  by (simp add: nearest_def)

lemma nearest_transparent: "transparent im \<Longrightarrow> transparent (nearest im w h)"
  by (simp add: transparent_def nearest_def Let_def)

lemma blank_transparent: "transparent (blank sz (0, 0, 0, 0))"
  by (simp add: transparent_def blank_def)



text \<open>Numbers with a 53-bit significand are not changed by \<open>fl\<close>.\<close>

lemma round_half_even_int: "round_half_even (of_int m) = m"
  by (simp add: round_half_even_def)

lemma fl_exact:
  assumes lo: "2 ^ 52 \<le> \<bar>m\<bar>" and hi: "\<bar>m\<bar> < 2 ^ 53"
  shows "fl (of_int m * 2 powr of_int e) = of_int m * 2 powr of_int e"
proof -
  let ?x = "of_int m * 2 powr of_int e :: real"
  from lo have m0: "m \<noteq> 0" by auto
  then have x0: "?x \<noteq> 0" by simp
  have absx: "\<bar>?x\<bar> = of_int \<bar>m\<bar> * 2 powr of_int e"
    by (simp add: abs_mult)
  from m0 have mpos: "0 < (of_int \<bar>m\<bar> :: real)" by simp
  have "log 2 \<bar>?x\<bar> = log 2 (of_int \<bar>m\<bar>) + of_int e"
    unfolding absx using mpos by (simp add: log_mult)
  moreover have "\<lfloor>log 2 (of_int \<bar>m\<bar> :: real)\<rfloor> = 52"
  proof (rule floor_unique)
    have "(2::real) ^ 52 \<le> of_int \<bar>m\<bar>"
      using lo by (metis of_int_le_iff of_int_numeral of_int_power)
    then have "2 powr 52 \<le> (of_int \<bar>m\<bar> :: real)"
      by simp
    then show "of_int 52 \<le> log 2 (of_int \<bar>m\<bar> :: real)"
      using mpos by (simp add: le_log_iff)
    have "(of_int \<bar>m\<bar> :: real) < 2 ^ 53"
      using hi by (metis of_int_less_iff of_int_numeral of_int_power)
    then have "(of_int \<bar>m\<bar> :: real) < 2 powr 53"
      by simp
    then show "log 2 (of_int \<bar>m\<bar> :: real) < of_int 52 + 1"
      using mpos by (simp add: log_less_iff)
  qed
  ultimately have "\<lfloor>log 2 \<bar>?x\<bar>\<rfloor> - 52 = e"
    by simp
  then have "fl ?x = of_int (round_half_even (?x / 2 powr of_int e)) * 2 powr of_int e"
    using x0 by (simp add: fl_def Let_def del: of_int_abs)
  also have "?x / 2 powr of_int e = of_int m"
    by simp
  finally show ?thesis
    by (simp add: round_half_even_int)
qed







text \<open>
  In general \<open>fl\<close> is found from the binade of its argument.  An instance: for a content
  of 3 pixels and a padding of 0.35 the float quotient lies just below 10, so the padded
  size is 9, where the exact quotient would give 10.
\<close>

lemma fl_bracket:
  assumes lo: "2 powr of_int k \<le> \<bar>x\<bar>" and hi: "\<bar>x\<bar> < 2 powr of_int (k + 1)"
  shows "fl x = of_int (round_half_even (x / 2 powr of_int (k - 52))) * 2 powr of_int (k - 52)"
proof -
  have pos: "0 < \<bar>x\<bar>"
    using lo powr_gt_zero [of 2 "of_int k"] by linarith
  then have x0: "x \<noteq> 0" by simp
  have "\<lfloor>log 2 \<bar>x\<bar>\<rfloor> = k"
  proof (rule floor_unique)
    show "of_int k \<le> log 2 \<bar>x\<bar>"
      using lo pos by (simp add: le_log_iff)
    show "log 2 \<bar>x\<bar> < of_int k + 1"
      using hi pos by (simp add: log_less_iff)
  qed
  then show ?thesis
    using x0 by (simp add: fl_def Let_def)
qed

lemma fl_twice_padding: "fl (2 * (7 / 20)) = 6305039478318694 / 2 ^ 53"
proof -
  have "fl (7 / 10) = of_int (round_half_even ((7 / 10) / 2 powr of_int (- 1 - 52)))
      * 2 powr of_int (- 1 - 52)"
    by (rule fl_bracket) (simp_all add: powr_minus)
  also have "(7 / 10 :: real) / 2 powr of_int (- 1 - 52) = 63050394783186944 / 10"
    by (simp add: powr_minus)
  also have "round_half_even (63050394783186944 / 10) = 6305039478318694"
    by (simp add: round_half_even_def Let_def)
  finally show ?thesis
    by (simp add: powr_minus)
qed

lemma fl_denominator: "fl (1 - 6305039478318694 / 2 ^ 53) = 5404319552844596 / 2 ^ 54"
proof -
  have "fl (of_int 5404319552844596 * 2 powr of_int (- 54)) =
      of_int 5404319552844596 * 2 powr of_int (- 54)"
    by (rule fl_exact) simp_all
  then show ?thesis
    by (simp add: powr_minus)
qed

lemma fl_three: "fl (of_int 3) = 3"
  using fl_exact [of 6755399441055744 "- 51"] by (simp add: powr_minus)

lemma padded_quotient: "py_int (fl (3 / (5404319552844596 / 2 ^ 54))) = 9"
proof -
  let ?q = "3 / (5404319552844596 / 2 ^ 54) :: real"
  have "fl ?q = of_int (round_half_even (?q / 2 powr of_int (3 - 52))) * 2 powr of_int (3 - 52)"
    by (rule fl_bracket) (simp_all add: powr_minus)
  also have "round_half_even (?q / 2 powr of_int (3 - 52)) = 5629499534213119"
    by (simp add: round_half_even_def Let_def powr_minus)
  finally have e: "fl ?q = 5629499534213119 / 2 ^ 49"
    by (simp add: powr_minus)
  show ?thesis
    unfolding e by (simp add: py_int_def)
qed

lemma padded_size_example:
  "py_int (fl (fl (of_int 3) / fl (1 - fl (2 * (7 / 20))))) = 9"
  by (simp only: fl_twice_padding fl_denominator fl_three padded_quotient)












section \<open>The reference tracer\<close>

text \<open>
  C3.  For an image whose pixels with non-zero alpha are exactly (5, 5) and
  (10, 12), the bounding box \<open>clean_and_resize\<close> obtains from \<open>getbbox\<close> is
  (5, 5, 11, 13): left and upper are the smallest foreground column and row, right and
  lower are one past the largest, which is the box \<open>crop\<close> expects.
\<close>

theorem getbbox_two_pixels:
  assumes "10 < im_width img" and "12 < im_height img"
    and "\<forall>x < im_width img. \<forall>y < im_height img.
           (alpha (im_px img (x, y)) \<noteq> 0) = ((x, y) = (5, 5) \<or> (x, y) = (10, 12))"
  shows "getbbox img = Some (5, 5, 11, 13)"
proof -
  from assms have "set (foreground img) = {(5, 5), (10, 12)}"
    unfolding set_foreground by auto
  then show ?thesis by (rule getbbox_of_set)
qed

theorem getbbox_two_pixels_witness:
  "10 < im_width two_pixel_image \<and> 12 < im_height two_pixel_image
   \<and> set (foreground two_pixel_image) = {(5, 5), (10, 12)}
   \<and> getbbox two_pixel_image = Some (5, 5, 11, 13)"
proof -
  have h1: "10 < im_width two_pixel_image" and h2: "12 < im_height two_pixel_image"
    by (simp_all add: two_pixel_image_def)
  have h3: "\<forall>x < im_width two_pixel_image. \<forall>y < im_height two_pixel_image.
      (alpha (im_px two_pixel_image (x, y)) \<noteq> 0) = ((x, y) = (5, 5) \<or> (x, y) = (10, 12))"
    by (simp add: two_pixel_image_def)
  from h1 h2 two_pixel_foreground getbbox_two_pixels [OF h1 h2 h3] show ?thesis
    by blast
qed

theorem getbbox_two_pixels_counterexample:
  "set (foreground two_pixel_image) = {(5, 5), (10, 12)}
   \<and> getbbox two_pixel_image \<noteq> Some (5, 5, 10, 12)"
  using two_pixel_foreground two_pixel_image_bbox by simp

text \<open>
  C4.  Let the Lanczos resampler return an image of the requested size and map
  fully transparent images to fully transparent images.  Then for every fully transparent
  input image, every positive \<open>target_size\<close> and every padding, \<open>clean_and_resize\<close>
  raises no error and returns a fully transparent image of size
  \<open>target_size\<close> x \<open>target_size\<close>.
\<close>

theorem clean_and_resize_empty:
  assumes size: "\<And>im w h. 0 < w \<Longrightarrow> 0 < h \<Longrightarrow>
      im_width (lanczos im w h) = w \<and> im_height (lanczos im w h) = h"
    and keep: "\<And>im w h. transparent im \<Longrightarrow> transparent (lanczos im w h)"
    and img: "transparent img"
    and pos: "0 < target_size"
  shows "\<exists>out. clean_and_resize lanczos img target_size padding = Inr out
           \<and> im_width out = nat target_size \<and> im_height out = nat target_size
           \<and> transparent out"
proof -
  from img have "getbbox img = None" by (simp add: getbbox_None)
  then have eq: "clean_and_resize lanczos img target_size padding =
      resize lanczos img (target_size, target_size)"
    by (simp add: clean_and_resize_def)
  show ?thesis
  proof (cases "(int (im_width img), int (im_height img)) = (target_size, target_size)")
    case True
    with img eq show ?thesis by (auto simp: resize_def)
  next
    case False
    with pos have "resize lanczos img (target_size, target_size) =
        Inr (lanczos img (nat target_size) (nat target_size))"
      by (auto simp: resize_def)
    moreover from pos have "0 < nat target_size" by simp
    ultimately show ?thesis
      using eq size keep [OF img] by simp
  qed
qed

theorem clean_and_resize_empty_witness:
  "transparent (blank (2, 2) (0, 0, 0, 0)) \<and> (0::int) < 64 \<and>
   (\<exists>out. clean_and_resize nearest (blank (2, 2) (0, 0, 0, 0)) 64 (2 / 25) = Inr out
           \<and> im_width out = nat 64 \<and> im_height out = nat 64 \<and> transparent out)"
  using clean_and_resize_empty [of nearest "blank (2, 2) (0, 0, 0, 0)" 64 "2 / 25",
      OF nearest_size nearest_transparent blank_transparent]
  by (simp add: blank_transparent)

text \<open>
  C5.  The output of \<open>create_light_version\<close> has the size of its input; at every
  pixel its alpha equals the input's alpha, and where the input's alpha is positive the
  output pixel is (255, 255, 255, alpha).
\<close>

theorem create_light_version_alpha:
  "im_width (create_light_version img) = im_width img
   \<and> im_height (create_light_version img) = im_height img
   \<and> (\<forall>x < im_width img. \<forall>y < im_height img.
        alpha (im_px (create_light_version img) (x, y)) = alpha (im_px img (x, y))
        \<and> (0 < alpha (im_px img (x, y)) \<longrightarrow>
             im_px (create_light_version img) (x, y) =
               (255, 255, 255, alpha (im_px img (x, y)))))"
proof -
  let ?out = "create_light_version img"
  have size: "im_width ?out = im_width img \<and> im_height ?out = im_height img"
    by (simp add: create_light_version_px)
  have px: "im_px ?out (x, y) =
      (if 0 < alpha (im_px img (x, y)) then (255, 255, 255, alpha (im_px img (x, y)))
       else (0, 0, 0, 0))"
    if "x < im_width img" and "y < im_height img" for x y
    using that by (simp add: create_light_version_px)
  have "alpha (im_px ?out (x, y)) = alpha (im_px img (x, y))
      \<and> (0 < alpha (im_px img (x, y)) \<longrightarrow>
           im_px ?out (x, y) = (255, 255, 255, alpha (im_px img (x, y))))"
    if "x < im_width img" and "y < im_height img" for x y
    using px [OF that] by simp
  with size show ?thesis by blast
qed

theorem create_light_version_alpha_witness:
  "(5::nat) < im_width two_pixel_image \<and> (5::nat) < im_height two_pixel_image
   \<and> 0 < alpha (im_px two_pixel_image (5, 5))
   \<and> im_px (create_light_version two_pixel_image) (5, 5) = (255, 255, 255, 255)
   \<and> alpha (im_px (create_light_version two_pixel_image) (0, 0)) = 0"
proof -
  have w: "(5::nat) < im_width two_pixel_image" "(0::nat) < im_width two_pixel_image"
    and h: "(5::nat) < im_height two_pixel_image" "(0::nat) < im_height two_pixel_image"
    by (simp_all add: two_pixel_image_def)
  note all = create_light_version_alpha [of two_pixel_image, THEN conjunct2, THEN conjunct2]
  from all w(1) h(1) have
    "alpha (im_px (create_light_version two_pixel_image) (5, 5)) =
       alpha (im_px two_pixel_image (5, 5))
     \<and> (0 < alpha (im_px two_pixel_image (5, 5)) \<longrightarrow>
          im_px (create_light_version two_pixel_image) (5, 5) =
            (255, 255, 255, alpha (im_px two_pixel_image (5, 5))))"
    by blast
  moreover from all w(2) h(2) have
    "alpha (im_px (create_light_version two_pixel_image) (0, 0)) =
       alpha (im_px two_pixel_image (0, 0))"
    by blast
  moreover have "im_px two_pixel_image (5, 5) = (0, 0, 0, 255)"
    and "im_px two_pixel_image (0, 0) = (0, 0, 0, 0)"
    by (simp_all add: two_pixel_image_def)
  ultimately show ?thesis
    using w h by simp
qed




text \<open>
  C9.  The RGBA image returned by \<open>trace_reference\<close> is the left half of the
  reference in size, and each of its pixels is (0, 0, 0, 255) where the luminance of the
  reference pixel is below 128 and (0, 0, 0, 0) elsewhere; so every pixel is one of these
  two values, the alpha channel takes only the values 0 and 255, and RGB is black.
\<close>

theorem trace_reference_binary:
  "im_width (fst (trace_reference to_L ref)) = im_width ref div 2
   \<and> im_height (fst (trace_reference to_L ref)) = im_height ref
   \<and> (\<forall>x < im_width (fst (trace_reference to_L ref)).
       \<forall>y < im_height (fst (trace_reference to_L ref)).
         (im_px (fst (trace_reference to_L ref)) (x, y) = (0, 0, 0, 0)
          \<or> im_px (fst (trace_reference to_L ref)) (x, y) = (0, 0, 0, 255))
         \<and> (alpha (im_px (fst (trace_reference to_L ref)) (x, y)) = 0
          \<or> alpha (im_px (fst (trace_reference to_L ref)) (x, y)) = 255)
         \<and> (im_px (fst (trace_reference to_L ref)) (x, y) = (0, 0, 0, 255)
          \<longleftrightarrow> to_L (im_px ref (x, y)) < 128))"
proof -
  let ?out = "fst (trace_reference to_L ref)"
  have size: "im_width ?out = im_width ref div 2 \<and> im_height ?out = im_height ref"
    by (simp add: trace_reference_px)
  have px: "im_px ?out (x, y) =
      (if to_L (im_px ref (x, y)) < 128 then (0, 0, 0, 255) else (0, 0, 0, 0))"
    if "x < im_width ref div 2" and "y < im_height ref" for x y
    using that by (simp add: trace_reference_px)
  have "(im_px ?out (x, y) = (0, 0, 0, 0) \<or> im_px ?out (x, y) = (0, 0, 0, 255))
      \<and> (alpha (im_px ?out (x, y)) = 0 \<or> alpha (im_px ?out (x, y)) = 255)
      \<and> (im_px ?out (x, y) = (0, 0, 0, 255) \<longleftrightarrow> to_L (im_px ref (x, y)) < 128)"
    if "x < im_width ?out" and "y < im_height ?out" for x y
    using px [of x y] that size by simp
  with size show ?thesis by blast
qed

theorem trace_reference_binary_witness:
  "(0::nat) < im_width (fst (trace_reference (\<lambda>p. case p of (r, g, b, a) \<Rightarrow>
        (r * 299 + g * 587 + b * 114) div 1000) two_pixel_image))
   \<and> (0::nat) < im_height (fst (trace_reference (\<lambda>p. case p of (r, g, b, a) \<Rightarrow>
        (r * 299 + g * 587 + b * 114) div 1000) two_pixel_image))
   \<and> im_px (fst (trace_reference (\<lambda>p. case p of (r, g, b, a) \<Rightarrow>
        (r * 299 + g * 587 + b * 114) div 1000) two_pixel_image)) (0, 0) = (0, 0, 0, 255)"
proof -
  let ?L = "\<lambda>p :: rgba. case p of (r, g, b, a) \<Rightarrow> (r * 299 + g * 587 + b * 114) div 1000"
  note t = trace_reference_binary [of ?L two_pixel_image]
  from t have w: "im_width (fst (trace_reference ?L two_pixel_image)) = 8"
    and h: "im_height (fst (trace_reference ?L two_pixel_image)) = 16"
    by (simp_all add: two_pixel_image_def)
  from t [THEN conjunct2, THEN conjunct2] w h have
    "im_px (fst (trace_reference ?L two_pixel_image)) (0, 0) = (0, 0, 0, 255)
       \<longleftrightarrow> ?L (im_px two_pixel_image (0, 0)) < 128"
    by simp
  then have "im_px (fst (trace_reference ?L two_pixel_image)) (0, 0) = (0, 0, 0, 255)"
    by (simp add: two_pixel_image_def)
  with w h show ?thesis by simp
qed

text \<open>
  C10.  The output of \<open>create_light_version\<close> depends only on the size and the
  alpha channel of its input: two images of the same size whose alpha agrees at every pixel
  give the same output, whatever their RGB values are.
\<close>

theorem create_light_version_alpha_only:
  assumes "im_width a = im_width b" and "im_height a = im_height b"
    and "\<forall>x < im_width a. \<forall>y < im_height a.
           alpha (im_px a (x, y)) = alpha (im_px b (x, y))"
  shows "create_light_version a = create_light_version b"
proof -
  have "(if fst q < im_width a \<and> snd q < im_height a \<and> 0 < alpha (im_px a q)
         then (255, 255, 255, alpha (im_px a q)) else (0, 0, 0, 0 :: nat)) =
        (if fst q < im_width b \<and> snd q < im_height b \<and> 0 < alpha (im_px b q)
         then (255 :: nat, 255 :: nat, 255 :: nat, alpha (im_px b q)) else (0, 0, 0, 0))" for q
  proof (cases "fst q < im_width a \<and> snd q < im_height a")
    case True
    with assms(3) have "alpha (im_px a (fst q, snd q)) = alpha (im_px b (fst q, snd q))"
      by blast
    with True assms(1,2) show ?thesis by simp
  next
    case False
    with assms(1,2) show ?thesis by auto
  qed
  then show ?thesis
    unfolding create_light_version_px using assms(1,2) by simp
qed

theorem create_light_version_alpha_only_witness:
  "create_light_version (blank (2, 2) (0, 0, 0, 255)) =
   create_light_version (blank (2, 2) (255, 0, 0, 255))"
proof -
  have h1: "im_width (blank (2, 2) (0 :: nat, 0 :: nat, 0 :: nat, 255 :: nat)) =
      im_width (blank (2, 2) (255 :: nat, 0 :: nat, 0 :: nat, 255 :: nat))"
    and h2: "im_height (blank (2, 2) (0 :: nat, 0 :: nat, 0 :: nat, 255 :: nat)) =
      im_height (blank (2, 2) (255 :: nat, 0 :: nat, 0 :: nat, 255 :: nat))"
    by (simp_all add: blank_def)
  have h3: "\<forall>x < im_width (blank (2, 2) (0 :: nat, 0 :: nat, 0 :: nat, 255 :: nat)).
      \<forall>y < im_height (blank (2, 2) (0 :: nat, 0 :: nat, 0 :: nat, 255 :: nat)).
        alpha (im_px (blank (2, 2) (0, 0, 0, 255)) (x, y)) =
        alpha (im_px (blank (2, 2) (255, 0, 0, 255)) (x, y))"
    by (simp add: blank_def)
  show ?thesis
    by (rule create_light_version_alpha_only [OF h1 h2 h3])
qed

end
